theory Spec2Isabelle
  imports Complex_Main
begin

section \<open>Conventions of the embedding\<close>

text \<open>
  The program is JavaScript. A JavaScript number is a finite value, \<open>NaN\<close>, \<open>Infinity\<close> or
  \<open>-Infinity\<close>: the type \<open>'a number\<close>, whose finite values are reals, or integers where
  the program has rounded them. Where a number of the program is finite on every path
  (a coordinate, a position of a stop, a decile, a component of the score) it is a plain
  \<^typ>\<open>real\<close> or \<^typ>\<open>int\<close>. Zero has no sign in the model.

  Arithmetic on finite values is exact, with one exception: the rounding error of the
  haversine term \<open>a\<close> of \<open>_haversine\<close> is a parameter of the model, because it decides
  whether the square roots taken of \<open>a\<close> and \<open>1 - a\<close> are numbers.

  A value that may be \<open>null\<close> or \<open>undefined\<close> is an \<^typ>\<open>'a option\<close>. An object used
  as a dictionary is the list of its entries in the order \<open>Object.entries\<close> yields them.
  A statement that throws is the \<open>Inl\<close> branch of a sum.
\<close>

datatype error = TypeError

datatype 'a number = Num 'a | NaN | PosInf | NegInf

text \<open>\<open>x / y\<close> on finite operands: a zero divisor gives \<open>NaN\<close> or an infinity.\<close>

definition js_div :: "real \<Rightarrow> real \<Rightarrow> real number" where
  "js_div x y =
     (if y \<noteq> 0 then Num (x / y)
      else if x = 0 then NaN
      else if x > 0 then PosInf
      else NegInf)"

text \<open>\<open>x * y\<close> and \<open>x + y\<close> with a finite left operand.\<close>

fun js_times :: "real \<Rightarrow> real number \<Rightarrow> real number" where
  "js_times x (Num y) = Num (x * y)"
| "js_times x NaN = NaN"
| "js_times x PosInf = (if x = 0 then NaN else if x > 0 then PosInf else NegInf)"
| "js_times x NegInf = (if x = 0 then NaN else if x > 0 then NegInf else PosInf)"

fun js_plus :: "real \<Rightarrow> real number \<Rightarrow> real number" where
  "js_plus x (Num y) = Num (x + y)"
| "js_plus x NaN = NaN"
| "js_plus x PosInf = PosInf"
| "js_plus x NegInf = NegInf"

text \<open>\<open>x < y\<close>: false as soon as an operand is \<open>NaN\<close>.\<close>

fun js_less :: "real number \<Rightarrow> real number \<Rightarrow> bool" where
  "js_less (Num x) (Num y) = (x < y)"
| "js_less (Num x) PosInf = True"
| "js_less NegInf (Num y) = True"
| "js_less NegInf PosInf = True"
| "js_less x y = False"

section \<open>Colour interpolation (\<open>CombinedScoreLayer\<close>)\<close>

text \<open>A gradient stop \<open>{ t, r, g, b }\<close>.\<close>

record ColorStop =
  stop_t :: real
  stop_r :: int
  stop_g :: int
  stop_b :: int

definition COLOR_STOPS :: "ColorStop list" where
  "COLOR_STOPS =
    [\<lparr>stop_t = 0,     stop_r = 44,  stop_g = 160, stop_b = 44\<rparr>,
     \<lparr>stop_t = 1 / 4, stop_r = 143, stop_g = 188, stop_b = 50\<rparr>,
     \<lparr>stop_t = 1 / 2, stop_r = 240, stop_g = 165, stop_b = 0\<rparr>,
     \<lparr>stop_t = 3 / 4, stop_r = 220, stop_g = 90,  stop_b = 30\<rparr>,
     \<lparr>stop_t = 1,     stop_r = 180, stop_g = 30,  stop_b = 30\<rparr>]"

text \<open>
  \<open>Math.round(x)\<close> is the integer nearest to \<open>x\<close>, halves going up; \<open>NaN\<close> and the
  infinities are returned as they are.
\<close>

fun Math_round :: "real number \<Rightarrow> int number" where
  "Math_round (Num x) = Num \<lfloor>x + 1 / 2\<rfloor>"
| "Math_round NaN = NaN"
| "Math_round PosInf = PosInf"
| "Math_round NegInf = NegInf"

text \<open>\<open>function _lerp(a, b, t) { return Math.round(a + (b - a) * t); }\<close>\<close>

definition lerp :: "int \<Rightarrow> int \<Rightarrow> real number \<Rightarrow> int number" where
  "lerp a b t =
     Math_round (js_plus (real_of_int a) (js_times (real_of_int b - real_of_int a) t))"

text \<open>
  The loop of \<open>_scoreColor\<close>: for \<open>i\<close> from \<open>0\<close> to \<open>length - 2\<close>, the first pair of
  neighbouring stops with \<open>s >= stops[i].t && s <= stops[i + 1].t\<close>; \<open>None\<close> when the
  loop ends without \<open>break\<close>.
\<close>

fun findBracket :: "ColorStop list \<Rightarrow> real \<Rightarrow> (ColorStop \<times> ColorStop) option" where
  "findBracket (lo # hi # rest) s =
     (if s \<ge> stop_t lo \<and> s \<le> stop_t hi then Some (lo, hi)
      else findBracket (hi # rest) s)"
| "findBracket stops s = None"

text \<open>\<open>const span = hi.t - lo.t || 1;\<close>: a span of zero is falsy and replaced by 1.\<close>

definition span_of :: "ColorStop \<Rightarrow> ColorStop \<Rightarrow> real" where
  "span_of lo hi = (if stop_t hi - stop_t lo = 0 then 1 else stop_t hi - stop_t lo)"

text \<open>
  \<open>_scoreColor\<close> with the table of stops as a parameter. The source returns the string
  \<open>rgb(r,g,b)\<close>; the model returns the three channel values. On an empty table
  \<open>lo\<close> and \<open>hi\<close> are \<open>undefined\<close> and reading \<open>hi.t\<close> throws a \<open>TypeError\<close>.
\<close>

definition scoreColor_on ::
  "ColorStop list \<Rightarrow> real \<Rightarrow> error + (int number \<times> int number \<times> int number)" where
  "scoreColor_on stops score =
     (if stops = [] then Inl TypeError
      else
        let s = max 0 (min 1 score);
            (lo, hi) = (case findBracket stops s of
                          Some p \<Rightarrow> p
                        | None \<Rightarrow> (hd stops, last stops));
            span = span_of lo hi;
            t = js_div (s - stop_t lo) span
        in Inr (lerp (stop_r lo) (stop_r hi) t,
                lerp (stop_g lo) (stop_g hi) t,
                lerp (stop_b lo) (stop_b hi) t))"

text \<open>\<open>_scoreColor(score)\<close> itself reads the constant table.\<close>

definition scoreColor :: "real \<Rightarrow> error + (int number \<times> int number \<times> int number)" where
  "scoreColor score = scoreColor_on COLOR_STOPS score"

section \<open>Great-circle distance and nearest station\<close>

text \<open>\<open>Math.sqrt(x)\<close> of a finite \<open>x\<close>: \<open>NaN\<close> below zero.\<close>

definition Math_sqrt :: "real \<Rightarrow> real number" where
  "Math_sqrt x = (if x < 0 then NaN else Num (sqrt x))"

text \<open>
  \<open>Math.atan2(y, x)\<close> on finite arguments: the angle of the point \<open>(x, y)\<close> in
  \<open>(-\<pi>, \<pi>]\<close>.
\<close>

definition atan2_finite :: "real \<Rightarrow> real \<Rightarrow> real" where
  "atan2_finite y x =
     (if x > 0 then arctan (y / x)
      else if x < 0 then (if y \<ge> 0 then arctan (y / x) + pi else arctan (y / x) - pi)
      else if y > 0 then pi / 2
      else if y < 0 then - (pi / 2)
      else 0)"

text \<open>\<open>Math.atan2\<close> on all numbers: \<open>NaN\<close> as soon as an argument is \<open>NaN\<close>.\<close>

fun Math_atan2 :: "real number \<Rightarrow> real number \<Rightarrow> real number" where
  "Math_atan2 NaN x = NaN"
| "Math_atan2 y NaN = NaN"
| "Math_atan2 (Num y) (Num x) = Num (atan2_finite y x)"
| "Math_atan2 (Num y) PosInf = Num 0"
| "Math_atan2 (Num y) NegInf = Num (if y \<ge> 0 then pi else - pi)"
| "Math_atan2 PosInf (Num x) = Num (pi / 2)"
| "Math_atan2 NegInf (Num x) = Num (- (pi / 2))"
| "Math_atan2 PosInf PosInf = Num (pi / 4)"
| "Math_atan2 PosInf NegInf = Num (3 * pi / 4)"
| "Math_atan2 NegInf PosInf = Num (- (pi / 4))"
| "Math_atan2 NegInf NegInf = Num (- (3 * pi / 4))"

text \<open>
  The rounding error of the double-precision evaluation of the haversine term \<open>a\<close>, as a
  function of the four arguments of \<open>_haversine\<close>.
\<close>

type_synonym rounding = "real \<Rightarrow> real \<Rightarrow> real \<Rightarrow> real \<Rightarrow> real"

text \<open>
  \<open>_haversine(lat1, lng1, lat2, lng2)\<close>. The value of \<open>a\<close> is the exact one plus the
  rounding error; the source takes \<open>Math.sqrt\<close> of \<open>a\<close> and of \<open>1 - a\<close> with no test of
  their signs, so that the result is \<open>NaN\<close> when \<open>a\<close> is not within \<open>[0,1]\<close>.
\<close>

definition haversine :: "rounding \<Rightarrow> real \<Rightarrow> real \<Rightarrow> real \<Rightarrow> real \<Rightarrow> real number" where
  "haversine err lat1 lng1 lat2 lng2 =
     (let R = 6371;
          dLat = (lat2 - lat1) * pi / 180;
          dLng = (lng2 - lng1) * pi / 180;
          a = (sin (dLat / 2))\<^sup>2 +
              cos (lat1 * pi / 180) * cos (lat2 * pi / 180) * (sin (dLng / 2))\<^sup>2 +
              err lat1 lng1 lat2 lng2
      in js_times (R * 2) (Math_atan2 (Math_sqrt a) (Math_sqrt (1 - a))))"

text \<open>A station record \<open>{ lat, lng, maxAQI, name }\<close> of \<open>AirQualityLayer._stations\<close>.\<close>

record station =
  st_lat :: real
  st_lng :: real
  maxAQI :: "real option"
  st_name :: string

type_synonym stations = "(string \<times> station) list"

text \<open>
  The loop of \<open>_nearestStation\<close> over \<open>Object.entries(stations)\<close>; \<open>bestDist\<close> starts as
  \<open>Infinity\<close>, and the test is \<open>d < bestDist\<close>.
\<close>

fun nearestStation_loop ::
  "rounding \<Rightarrow> real \<Rightarrow> real \<Rightarrow> stations \<Rightarrow> station option \<Rightarrow> real number \<Rightarrow> station option"
  where
  "nearestStation_loop err lat lng [] best bestDist = best"
| "nearestStation_loop err lat lng ((code, st) # rest) best bestDist =
     (let d = haversine err lat lng (st_lat st) (st_lng st)
      in if js_less d bestDist
         then nearestStation_loop err lat lng rest (Some st) d
         else nearestStation_loop err lat lng rest best bestDist)"

definition nearestStation :: "rounding \<Rightarrow> real \<Rightarrow> real \<Rightarrow> stations \<Rightarrow> station option" where
  "nearestStation err lat lng sts = nearestStation_loop err lat lng sts None PosInf"

section \<open>Polygon centroid (\<open>DeprivationLayer\<close>)\<close>

text \<open>
  A GeoJSON geometry: \<open>type\<close> and \<open>coordinates\<close>. A position is \<open>[lng, lat]\<close>, a ring a
  list of positions, a polygon a list of rings (outer ring first, then holes).
\<close>

type_synonym ring = "(real \<times> real) list"

datatype geometry =
    Polygon "ring list"
  | MultiPolygon "ring list list"
  | OtherGeometry string

text \<open>The running sums \<open>sumLat\<close>, \<open>sumLng\<close>, \<open>count\<close> that \<open>processRing\<close> updates.\<close>

type_synonym ringSums = "real \<times> real \<times> nat"

fun processRing :: "ring \<Rightarrow> ringSums \<Rightarrow> ringSums" where
  "processRing [] acc = acc"
| "processRing ((lng, lat) # ring) (sumLat, sumLng, count) =
     processRing ring (sumLat + lat, sumLng + lng, count + 1)"

text \<open>
  \<open>processRing(poly[0])\<close>: on a polygon without rings \<open>poly[0]\<close> is \<open>undefined\<close>, and
  \<open>for (... of undefined)\<close> throws a \<open>TypeError\<close>.
\<close>

definition processOuter :: "ring list \<Rightarrow> ringSums \<Rightarrow> error + ringSums" where
  "processOuter poly acc =
     (case poly of [] \<Rightarrow> Inl TypeError | ring # holes \<Rightarrow> Inr (processRing ring acc))"

fun processPolys :: "ring list list \<Rightarrow> ringSums \<Rightarrow> error + ringSums" where
  "processPolys [] acc = Inr acc"
| "processPolys (poly # polys) acc =
     (case processOuter poly acc of
        Inl e \<Rightarrow> Inl e
      | Inr acc' \<Rightarrow> processPolys polys acc')"

text \<open>\<open>_centroid(geometry)\<close>; the result is \<open>[lat, lng]\<close> or \<open>null\<close>.\<close>

definition centroid :: "geometry \<Rightarrow> error + (real \<times> real) option" where
  "centroid geometry =
     (case (case geometry of
              Polygon coords \<Rightarrow> processOuter coords (0, 0, 0)
            | MultiPolygon coords \<Rightarrow> processPolys coords (0, 0, 0)
            | OtherGeometry ty \<Rightarrow> Inr (0, 0, 0)) of
        Inl e \<Rightarrow> Inl e
      | Inr (sumLat, sumLng, count) \<Rightarrow>
          Inr (if count = 0 then None
               else Some (sumLat / real count, sumLng / real count)))"

section \<open>Combined score (\<open>CombinedScoreLayer._buildLayer\<close>)\<close>

text \<open>An entry of \<open>DeprivationLayer._data\<close>, with the fields the score reads.\<close>

record lsoa =
  lsoa_code :: string
  imd_decile :: "int option"
  lsoa_centroid :: "(real \<times> real) option"

text \<open>The object \<open>{ lsoa, score, depComp, aqComp, noiseComp, nearestSt }\<close>.\<close>

record feature =
  f_lsoa :: lsoa
  score :: real
  depComp :: real
  aqComp :: real
  noiseComp :: real
  nearestSt :: "station option"

text \<open>
  The callback of \<open>lsoaData.map\<close> in \<open>_buildLayer\<close>, which the specification calls
  \<open>computeScore\<close>. The rounding error is the parameter of \<open>haversine\<close>, handed on.
\<close>

definition computeScore :: "rounding \<Rightarrow> lsoa \<Rightarrow> stations \<Rightarrow> feature" where
  "computeScore err l sts =
     (let hasStations = (length sts > 0);
          dep = (case imd_decile l of
                   Some d \<Rightarrow> (11 - real_of_int d) / 10
                 | None \<Rightarrow> 1 / 2);
          (aq, nst) =
            (if hasStations then
               (case lsoa_centroid l of
                  Some (lat, lng) \<Rightarrow>
                    (let n = nearestStation err lat lng sts
                     in case n of
                          Some st \<Rightarrow>
                            (case maxAQI st of
                               Some m \<Rightarrow> (min (m / 10) 1, n)
                             | None \<Rightarrow> (1 / 2, n))
                        | None \<Rightarrow> (1 / 2, n))
                | None \<Rightarrow> (1 / 2, None))
             else (1 / 2, None));
          noise = 1 / 2;
          sc = 4 / 10 * dep + 4 / 10 * aq + 2 / 10 * noise
      in \<lparr>f_lsoa = l, score = sc, depComp = dep, aqComp = aq,
          noiseComp = noise, nearestSt = nst\<rparr>)"

definition buildLayer_features :: "rounding \<Rightarrow> stations \<Rightarrow> lsoa list \<Rightarrow> feature list" where
  "buildLayer_features err sts lsoaData = map (\<lambda>l. computeScore err l sts) lsoaData"

section \<open>Vocabulary of the specification\<close>

text \<open>
  The definitions of this section are not code of the program: they are the notions the
  specification uses to state its properties, and the sample data the properties are
  tried on.
\<close>

text \<open>The clamp of a number to \<open>[0,1]\<close>.\<close>

definition clamp01 :: "real \<Rightarrow> real" where
  "clamp01 x = max 0 (min 1 x)"

text \<open>\<open>v\<close> lies between \<open>a\<close> and \<open>b\<close>, whichever of the two is larger.\<close>

definition between :: "int \<Rightarrow> int \<Rightarrow> int \<Rightarrow> bool" where
  "between a v b = (min a b \<le> v \<and> v \<le> max a b)"

text \<open>
  A valid stop list of the specification's data model: at least two stops, sorted
  ascending by position, the first at position 0 and the last at position 1.
\<close>

definition valid_stops :: "ColorStop list \<Rightarrow> bool" where
  "valid_stops stops =
     (length stops \<ge> 2 \<and> sorted (map stop_t stops) \<and>
      stop_t (hd stops) = 0 \<and> stop_t (last stops) = 1)"

text \<open>Every channel of every stop is in \<open>[0,255]\<close>.\<close>

definition channels_in_range :: "ColorStop list \<Rightarrow> bool" where
  "channels_in_range stops =
     list_all (\<lambda>c. 0 \<le> stop_r c \<and> stop_r c \<le> 255 \<and> 0 \<le> stop_g c \<and> stop_g c \<le> 255 \<and>
                    0 \<le> stop_b c \<and> stop_b c \<le> 255) stops"

text \<open>
  The haversine term \<open>a\<close> as \<open>_haversine\<close> computes it: the exact value plus the rounding
  error.
\<close>

definition haversine_a :: "rounding \<Rightarrow> real \<Rightarrow> real \<Rightarrow> real \<Rightarrow> real \<Rightarrow> real" where
  "haversine_a err lat1 lng1 lat2 lng2 =
     (sin ((lat2 - lat1) * pi / 180 / 2))\<^sup>2 +
     cos (lat1 * pi / 180) * cos (lat2 * pi / 180) * (sin ((lng2 - lng1) * pi / 180 / 2))\<^sup>2 +
     err lat1 lng1 lat2 lng2"

text \<open>The specification's \<open>distanceKm\<close> from the point \<open>(lat, lng)\<close> to a station.\<close>

definition distTo :: "rounding \<Rightarrow> real \<Rightarrow> real \<Rightarrow> station \<Rightarrow> real number" where
  "distTo err lat lng st = haversine err lat lng (st_lat st) (st_lng st)"

text \<open>The comparison \<open>x == y\<close> of two numbers: \<open>NaN\<close> equals nothing, not even itself.\<close>

definition js_eq :: "real number \<Rightarrow> real number \<Rightarrow> bool" where
  "js_eq x y =
     (case (x, y) of
        (Num v, Num w) \<Rightarrow> v = w
      | (PosInf, PosInf) \<Rightarrow> True
      | (NegInf, NegInf) \<Rightarrow> True
      | _ \<Rightarrow> False)"

text \<open>Exact arithmetic: no rounding error.\<close>

definition exact :: rounding where
  "exact lat1 lng1 lat2 lng2 = 0"

text \<open>
  The rounding error of IEEE double arithmetic at the arguments the examples below use.
  At the points \<open>(8, 0)\<close> and \<open>(-8, 180)\<close>, in either order, the exact \<open>a\<close> is 1 and the
  computed one is \<open>1.0000000000000002\<close>: the error is \<open>1 / 2 ^ 52\<close>, one unit in the
  last place of 1. From a point to itself the computed \<open>a\<close> is 0, without error.
\<close>

definition antipodal_ulp :: rounding where
  "antipodal_ulp lat1 lng1 lat2 lng2 =
     (if (lat1, lng1, lat2, lng2) = (8, 0, - 8, 180) \<or>
         (lat1, lng1, lat2, lng2) = (- 8, 180, 8, 0)
      then 1 / 2 ^ 52 else 0)"

text \<open>The decile, when present, is one of 1..10.\<close>

definition decile_in_range :: "lsoa \<Rightarrow> bool" where
  "decile_in_range l = (case imd_decile l of None \<Rightarrow> True | Some d \<Rightarrow> 1 \<le> d \<and> d \<le> 10)"

text \<open>The index of the matched station, when there is one and it has an index, is not negative.\<close>

definition index_nonneg :: "station option \<Rightarrow> bool" where
  "index_nonneg sto =
     (case sto of
        None \<Rightarrow> True
      | Some st \<Rightarrow> (case maxAQI st of None \<Rightarrow> True | Some m \<Rightarrow> 0 \<le> m))"

text \<open>Every polygon of the geometry has at least its outer ring.\<close>

definition hasOuterRings :: "geometry \<Rightarrow> bool" where
  "hasOuterRings geometry =
     (case geometry of
        Polygon coords \<Rightarrow> coords \<noteq> []
      | MultiPolygon coords \<Rightarrow> list_all (\<lambda>poly. poly \<noteq> []) coords
      | OtherGeometry ty \<Rightarrow> True)"

text \<open>The vertices of the outer rings of a geometry, holes left out.\<close>

definition outerRing :: "ring list \<Rightarrow> ring" where
  "outerRing poly = (case poly of [] \<Rightarrow> [] | ring # holes \<Rightarrow> ring)"

definition outerVertices :: "geometry \<Rightarrow> (real \<times> real) list" where
  "outerVertices geometry =
     (case geometry of
        Polygon coords \<Rightarrow> outerRing coords
      | MultiPolygon coords \<Rightarrow> concat (map outerRing coords)
      | OtherGeometry ty \<Rightarrow> [])"

text \<open>
  The arithmetic mean of a list of \<open>[lng, lat]\<close> positions as a \<open>[lat, lng]\<close> point;
  none for the empty list.
\<close>

definition vertexMean :: "(real \<times> real) list \<Rightarrow> (real \<times> real) option" where
  "vertexMean vs =
     (if vs = [] then None
      else Some (sum_list (map snd vs) / real (length vs),
                 sum_list (map fst vs) / real (length vs)))"

subsection \<open>Sample data\<close>

text \<open>Stations at the sample centroid \<open>(51, 0)\<close>, with and without an index.\<close>

definition stA :: station where
  "stA = \<lparr>st_lat = 51, st_lng = 0, maxAQI = Some 10, st_name = ''A''\<rparr>"

definition stB :: station where
  "stB = \<lparr>st_lat = 51, st_lng = 0, maxAQI = None, st_name = ''B''\<rparr>"

text \<open>
  A station at \<open>(-8, 180)\<close>, antipodal to the point \<open>(8, 0)\<close>, and a station at
  \<open>(8, 0)\<close> itself.
\<close>

definition stAnti :: station where
  "stAnti = \<lparr>st_lat = - 8, st_lng = 180, maxAQI = Some 5, st_name = ''X''\<rparr>"

definition stHere :: station where
  "stHere = \<lparr>st_lat = 8, st_lng = 0, maxAQI = Some 3, st_name = ''H''\<rparr>"

text \<open>A station at the sample centroid that reports a negative index.\<close>

definition stNeg :: station where
  "stNeg = \<lparr>st_lat = 51, st_lng = 0, maxAQI = Some (- 10), st_name = ''N''\<rparr>"

definition lsoa1 :: lsoa where
  "lsoa1 = \<lparr>lsoa_code = ''E01000001'', imd_decile = Some 1, lsoa_centroid = Some (51, 0)\<rparr>"

definition lsoa10 :: lsoa where
  "lsoa10 = \<lparr>lsoa_code = ''E01000010'', imd_decile = Some 10, lsoa_centroid = Some (51, 0)\<rparr>"

definition lsoaNone :: lsoa where
  "lsoaNone = \<lparr>lsoa_code = ''E01000000'', imd_decile = None, lsoa_centroid = None\<rparr>"

text \<open>A valid stop list whose first two stops share the position 0.\<close>

definition zero_width_stops :: "ColorStop list" where
  "zero_width_stops =
    [\<lparr>stop_t = 0, stop_r = 10,  stop_g = 20,  stop_b = 30\<rparr>,
     \<lparr>stop_t = 0, stop_r = 200, stop_g = 100, stop_b = 50\<rparr>,
     \<lparr>stop_t = 1, stop_r = 255, stop_g = 255, stop_b = 255\<rparr>]"

section \<open>Properties of the colour interpolation\<close>

subsection \<open>Rounding and linear interpolation\<close>

lemma Math_round_bounds:
  assumes "real_of_int lo \<le> x" "x \<le> real_of_int hi"
  shows "\<exists>k. Math_round (Num x) = Num k \<and> lo \<le> k \<and> k \<le> hi"
proof -
  from assms(1) have "real_of_int lo \<le> x + 1 / 2" by simp
  then have l: "lo \<le> \<lfloor>x + 1 / 2\<rfloor>" by (simp add: le_floor_iff)
  from assms(2) have "x + 1 / 2 < real_of_int (hi + 1)" by simp
  then have "\<lfloor>x + 1 / 2\<rfloor> < hi + 1" by (simp only: floor_less_iff)
  then have h: "\<lfloor>x + 1 / 2\<rfloor> \<le> hi" by simp
  from l h show ?thesis by simp
qed

lemma lerp_Num:
  "lerp a b (Num t) = Math_round (Num (real_of_int a + (real_of_int b - real_of_int a) * t))"
  by (simp add: lerp_def)

lemma lerp_between:
  assumes "0 \<le> t" "t \<le> 1"
  shows "\<exists>k. lerp a b (Num t) = Num k \<and> between a k b"
proof (cases "a \<le> b")
  case True
  then have d: "0 \<le> real_of_int b - real_of_int a" by simp
  have "0 \<le> (real_of_int b - real_of_int a) * t"
    using d assms(1) by (rule mult_nonneg_nonneg)
  moreover have "(real_of_int b - real_of_int a) * t \<le> (real_of_int b - real_of_int a) * 1"
    using assms(2) d by (rule mult_left_mono)
  ultimately have "real_of_int a \<le> real_of_int a + (real_of_int b - real_of_int a) * t"
    and "real_of_int a + (real_of_int b - real_of_int a) * t \<le> real_of_int b"
    by simp_all
  then obtain k where "lerp a b (Num t) = Num k" "a \<le> k" "k \<le> b"
    unfolding lerp_Num using Math_round_bounds by blast
  with True show ?thesis by (auto simp: between_def)
next
  case False
  then have d: "0 \<le> real_of_int a - real_of_int b" by simp
  have "0 \<le> (real_of_int a - real_of_int b) * t"
    using d assms(1) by (rule mult_nonneg_nonneg)
  moreover have "(real_of_int a - real_of_int b) * t \<le> (real_of_int a - real_of_int b) * 1"
    using assms(2) d by (rule mult_left_mono)
  moreover have "real_of_int a + (real_of_int b - real_of_int a) * t
      = real_of_int a - (real_of_int a - real_of_int b) * t"
    by (simp add: algebra_simps)
  ultimately have "real_of_int b \<le> real_of_int a + (real_of_int b - real_of_int a) * t"
    and "real_of_int a + (real_of_int b - real_of_int a) * t \<le> real_of_int a"
    by simp_all
  then obtain k where "lerp a b (Num t) = Num k" "b \<le> k" "k \<le> a"
    unfolding lerp_Num using Math_round_bounds by blast
  with False show ?thesis by (auto simp: between_def)
qed

lemma lerp_zero: "lerp a b (Num 0) = Num a"
  by (simp add: lerp_def)

lemma between_range:
  "between a v b \<Longrightarrow> 0 \<le> a \<Longrightarrow> a \<le> 255 \<Longrightarrow> 0 \<le> b \<Longrightarrow> b \<le> 255 \<Longrightarrow> 0 \<le> v \<and> v \<le> 255"
  by (auto simp: between_def min_def max_def split: if_splits)

subsection \<open>The bracket search\<close>

text \<open>
  What the loop breaks on is a pair of neighbours that encloses \<open>s\<close>.
\<close>

lemma findBracket_Some:
  "findBracket stops s = Some (lo, hi) \<Longrightarrow>
     stop_t lo \<le> s \<and> s \<le> stop_t hi \<and>
     (\<exists>i. Suc i < length stops \<and> lo = stops ! i \<and> hi = stops ! Suc i)"
proof (induction stops s rule: findBracket.induct)
  case (1 l h rest s)
  show ?case
  proof (cases "s \<ge> stop_t l \<and> s \<le> stop_t h")
    case True
    with 1(2) have "lo = l" "hi = h" by simp_all
    with True show ?thesis by auto
  next
    case False
    with 1(2) have r: "findBracket (h # rest) s = Some (lo, hi)" by simp
    from 1(1) [OF False r] obtain i where
      "stop_t lo \<le> s" "s \<le> stop_t hi" "Suc i < length (h # rest)"
      "lo = (h # rest) ! i" "hi = (h # rest) ! Suc i" by blast
    then have "Suc (Suc i) < length (l # h # rest) \<and> lo = (l # h # rest) ! Suc i \<and>
               hi = (l # h # rest) ! Suc (Suc i)" by simp
    with \<open>stop_t lo \<le> s\<close> \<open>s \<le> stop_t hi\<close> show ?thesis by blast
  qed
qed simp_all

text \<open>
  The loop does break when \<open>s\<close> is between the first and the last position: a pair is
  passed over only when \<open>s\<close> is beyond its right stop.
\<close>

lemma findBracket_exists:
  "length stops \<ge> 2 \<Longrightarrow> stop_t (hd stops) \<le> s \<Longrightarrow> s \<le> stop_t (last stops) \<Longrightarrow>
     \<exists>p. findBracket stops s = Some p"
proof (induction stops s rule: findBracket.induct)
  case (1 l h rest s)
  show ?case
  proof (cases "s \<ge> stop_t l \<and> s \<le> stop_t h")
    case True
    then show ?thesis by simp
  next
    case False
    with 1(3) have gt: "stop_t h < s" by simp
    with 1(4) have "rest \<noteq> []" by auto
    then have "length (h # rest) \<ge> 2" by (cases rest) simp_all
    moreover have "stop_t (hd (h # rest)) \<le> s" using gt by simp
    moreover have "s \<le> stop_t (last (h # rest))" using 1(4) by simp
    ultimately have "\<exists>p. findBracket (h # rest) s = Some p"
      using 1(1) [OF False] by blast
    with False show ?thesis by simp
  qed
qed simp_all

subsection \<open>The division\<close>

text \<open>
  The divisor is never zero, so the quotient is a finite number; on a bracket of width
  zero it is 0.
\<close>

lemma span_of_nonzero: "span_of lo hi \<noteq> 0"
  by (simp add: span_of_def)

lemma bracket_fraction:
  assumes "stop_t lo \<le> s" "s \<le> stop_t hi"
  shows "\<exists>t. js_div (s - stop_t lo) (span_of lo hi) = Num t \<and> 0 \<le> t \<and> t \<le> 1"
proof (cases "stop_t hi - stop_t lo = 0")
  case True
  with assms have "s - stop_t lo = 0" by simp
  then show ?thesis by (simp add: js_div_def span_of_nonzero)
next
  case False
  with assms have pos: "0 < stop_t hi - stop_t lo" by simp
  from False have sp: "span_of lo hi = stop_t hi - stop_t lo" by (simp add: span_of_def)
  have "0 \<le> (s - stop_t lo) / (stop_t hi - stop_t lo) \<and>
        (s - stop_t lo) / (stop_t hi - stop_t lo) \<le> 1"
    using pos assms by (simp add: field_simps)
  then show ?thesis unfolding sp using pos by (simp add: js_div_def)
qed

lemma zero_width_fraction:
  assumes "stop_t lo \<le> s" "s \<le> stop_t hi" "stop_t hi = stop_t lo"
  shows "js_div (s - stop_t lo) (span_of lo hi) = Num 0"
proof -
  from assms have "s - stop_t lo = 0" by simp
  then show ?thesis by (simp add: js_div_def span_of_nonzero)
qed

subsection \<open>The colour returned\<close>

lemma scoreColor_on_found:
  assumes "stops \<noteq> []" "findBracket stops (max 0 (min 1 x)) = Some (lo, hi)"
  shows "scoreColor_on stops x =
      Inr (lerp (stop_r lo) (stop_r hi) (js_div (max 0 (min 1 x) - stop_t lo) (span_of lo hi)),
           lerp (stop_g lo) (stop_g hi) (js_div (max 0 (min 1 x) - stop_t lo) (span_of lo hi)),
           lerp (stop_b lo) (stop_b hi) (js_div (max 0 (min 1 x) - stop_t lo) (span_of lo hi)))"
  using assms by (simp add: scoreColor_on_def Let_def)

lemma scoreColor_on_bracketed:
  assumes "length stops \<ge> 2" "stop_t (hd stops) \<le> max 0 (min 1 x)"
    "max 0 (min 1 x) \<le> stop_t (last stops)"
  shows "\<exists>i r g b. Suc i < length stops \<and>
           stop_t (stops ! i) \<le> max 0 (min 1 x) \<and> max 0 (min 1 x) \<le> stop_t (stops ! Suc i) \<and>
           scoreColor_on stops x = Inr (Num r, Num g, Num b) \<and>
           between (stop_r (stops ! i)) r (stop_r (stops ! Suc i)) \<and>
           between (stop_g (stops ! i)) g (stop_g (stops ! Suc i)) \<and>
           between (stop_b (stops ! i)) b (stop_b (stops ! Suc i))"
proof -
  define s where "s = max 0 (min 1 x)"
  from assms obtain lo hi where fb: "findBracket stops s = Some (lo, hi)"
    unfolding s_def [symmetric] using findBracket_exists [of stops s] by auto
  from findBracket_Some [OF fb] obtain i where
    br: "stop_t lo \<le> s" "s \<le> stop_t hi" and
    ix: "Suc i < length stops" "lo = stops ! i" "hi = stops ! Suc i" by blast
  from bracket_fraction [OF br] obtain t where
    t: "js_div (s - stop_t lo) (span_of lo hi) = Num t" and t01: "0 \<le> t" "t \<le> 1" by blast
  from assms(1) have ne: "stops \<noteq> []" by auto
  have res: "scoreColor_on stops x =
      Inr (lerp (stop_r lo) (stop_r hi) (Num t), lerp (stop_g lo) (stop_g hi) (Num t),
           lerp (stop_b lo) (stop_b hi) (Num t))"
    using scoreColor_on_found [OF ne, of x lo hi] fb t by (simp add: s_def)
  from lerp_between [OF t01] obtain r where
    r: "lerp (stop_r lo) (stop_r hi) (Num t) = Num r" "between (stop_r lo) r (stop_r hi)"
    by blast
  from lerp_between [OF t01] obtain g where
    g: "lerp (stop_g lo) (stop_g hi) (Num t) = Num g" "between (stop_g lo) g (stop_g hi)"
    by blast
  from lerp_between [OF t01] obtain b where
    b: "lerp (stop_b lo) (stop_b hi) (Num t) = Num b" "between (stop_b lo) b (stop_b hi)"
    by blast
  show ?thesis
    unfolding s_def [symmetric]
    using ix br res r g b by auto
qed

lemma scoreColor_on_zero_width:
  assumes "findBracket stops (max 0 (min 1 x)) = Some (lo, hi)" "stop_t hi = stop_t lo"
  shows "scoreColor_on stops x = Inr (Num (stop_r lo), Num (stop_g lo), Num (stop_b lo))"
proof -
  from assms(1) have ne: "stops \<noteq> []" by auto
  from findBracket_Some [OF assms(1)] have
    br: "stop_t lo \<le> max 0 (min 1 x)" "max 0 (min 1 x) \<le> stop_t hi" by simp_all
  show ?thesis
    unfolding scoreColor_on_found [OF ne assms(1)] zero_width_fraction [OF br assms(2)]
    by (simp add: lerp_zero)
qed

lemma valid_COLOR_STOPS: "valid_stops COLOR_STOPS"
  by (simp add: valid_stops_def COLOR_STOPS_def)

lemma channels_COLOR_STOPS: "channels_in_range COLOR_STOPS"
  by (simp add: channels_in_range_def COLOR_STOPS_def)

lemma channels_nth:
  "channels_in_range stops \<Longrightarrow> i < length stops \<Longrightarrow>
     0 \<le> stop_r (stops ! i) \<and> stop_r (stops ! i) \<le> 255 \<and>
     0 \<le> stop_g (stops ! i) \<and> stop_g (stops ! i) \<le> 255 \<and>
     0 \<le> stop_b (stops ! i) \<and> stop_b (stops ! i) \<le> 255"
  by (simp add: channels_in_range_def list_all_length)

lemma scoreColor_on_in_range:
  assumes "valid_stops stops" "channels_in_range stops"
  shows "\<exists>r g b. scoreColor_on stops x = Inr (Num r, Num g, Num b) \<and>
           0 \<le> r \<and> r \<le> 255 \<and> 0 \<le> g \<and> g \<le> 255 \<and> 0 \<le> b \<and> b \<le> 255"
proof -
  from assms(1) have "length stops \<ge> 2" "stop_t (hd stops) \<le> max 0 (min 1 x)"
    "max 0 (min 1 x) \<le> stop_t (last stops)"
    by (simp_all add: valid_stops_def)
  from scoreColor_on_bracketed [OF this] obtain i r g b where
    i: "Suc i < length stops" and res: "scoreColor_on stops x = Inr (Num r, Num g, Num b)" and
    bt: "between (stop_r (stops ! i)) r (stop_r (stops ! Suc i))"
        "between (stop_g (stops ! i)) g (stop_g (stops ! Suc i))"
        "between (stop_b (stops ! i)) b (stop_b (stops ! Suc i))" by blast
  from i have i': "i < length stops" by simp
  note lo = channels_nth [OF assms(2) i'] and hi = channels_nth [OF assms(2) i]
  have "0 \<le> r \<and> r \<le> 255" using between_range [OF bt(1)] lo hi by blast
  moreover have "0 \<le> g \<and> g \<le> 255" using between_range [OF bt(2)] lo hi by blast
  moreover have "0 \<le> b \<and> b \<le> 255" using between_range [OF bt(3)] lo hi by blast
  ultimately show ?thesis using res by blast
qed

lemma scoreColor_in_range:
  "\<exists>r g b. scoreColor x = Inr (Num r, Num g, Num b) \<and>
           0 \<le> r \<and> r \<le> 255 \<and> 0 \<le> g \<and> g \<le> 255 \<and> 0 \<le> b \<and> b \<le> 255"
  unfolding scoreColor_def
  by (rule scoreColor_on_in_range [OF valid_COLOR_STOPS channels_COLOR_STOPS])


subsection \<open>Claims on the colour interpolation\<close>



text \<open>
  Claim C7: the interpolation clamps its argument to \<open>[0,1]\<close>. For every stop list, a
  score below 0 gives the result at 0 and a score above 1 gives the result at 1.
\<close>

theorem scoreColor_clamps:
  "(x < 0 \<longrightarrow> scoreColor_on stops x = scoreColor_on stops 0) \<and>
   (1 < x \<longrightarrow> scoreColor_on stops x = scoreColor_on stops 1)"
  by (simp add: scoreColor_on_def)

text \<open>
  Claim C7 at the scores \<open>-5\<close> and \<open>5\<close> on the program's table.
\<close>

theorem scoreColor_clamps_witness:
  "(- 5 :: real) < 0 \<and> (1 :: real) < 5 \<and>
   scoreColor_on COLOR_STOPS (- 5) = scoreColor_on COLOR_STOPS 0 \<and>
   scoreColor_on COLOR_STOPS 5 = scoreColor_on COLOR_STOPS 1 \<and>
   scoreColor (- 5) = Inr (Num 44, Num 160, Num 44) \<and>
   scoreColor 5 = Inr (Num 180, Num 30, Num 30)"
  using scoreColor_clamps [of "- 5" COLOR_STOPS] scoreColor_clamps [of 5 COLOR_STOPS]
  by (simp add: scoreColor_def scoreColor_on_def COLOR_STOPS_def span_of_def lerp_def
      js_div_def)

text \<open>
  Claim C8: for every valid stop list and every score \<open>x\<close> in \<open>[0,1]\<close> the interpolation
  returns a colour, and there are two neighbouring stops that bracket \<open>x\<close> such that each
  of the red, green and blue channels of the colour is an integer that lies between the
  values of that channel at the two stops: rounding to the nearest integer does not
  overshoot.
\<close>

theorem scoreColor_no_overshoot:
  assumes "valid_stops stops" "0 \<le> x" "x \<le> 1"
  shows "\<exists>i r g b. Suc i < length stops \<and>
           stop_t (stops ! i) \<le> x \<and> x \<le> stop_t (stops ! Suc i) \<and>
           scoreColor_on stops x = Inr (Num r, Num g, Num b) \<and>
           between (stop_r (stops ! i)) r (stop_r (stops ! Suc i)) \<and>
           between (stop_g (stops ! i)) g (stop_g (stops ! Suc i)) \<and>
           between (stop_b (stops ! i)) b (stop_b (stops ! Suc i))"
proof -
  from assms(2,3) have c: "max 0 (min 1 x) = x" by simp
  from assms(1) have "length stops \<ge> 2" "stop_t (hd stops) \<le> max 0 (min 1 x)"
    "max 0 (min 1 x) \<le> stop_t (last stops)"
    unfolding c using assms(2,3) by (simp_all add: valid_stops_def)
  from scoreColor_on_bracketed [OF this] show ?thesis unfolding c .
qed

text \<open>
  Claim C8 on the program's table at the score \<open>3/10\<close>, between the stops at \<open>1/4\<close>
  and \<open>1/2\<close>.
\<close>

theorem scoreColor_no_overshoot_witness:
  "valid_stops COLOR_STOPS \<and> (0 :: real) \<le> 3 / 10 \<and> (3 / 10 :: real) \<le> 1 \<and>
   (\<exists>c. scoreColor_on COLOR_STOPS (3 / 10) = Inr c) \<and>
   scoreColor_on COLOR_STOPS (3 / 10) = Inr (Num 162, Num 183, Num 40) \<and>
   between 143 162 240 \<and> between 188 183 165 \<and> between 50 40 0"
proof -
  have v: "valid_stops COLOR_STOPS"
    by (simp add: valid_stops_def COLOR_STOPS_def)
  have lo: "(0 :: real) \<le> 3 / 10" and hi: "(3 / 10 :: real) \<le> 1" by simp_all
  from scoreColor_no_overshoot [OF v lo hi]
  have "\<exists>c. scoreColor_on COLOR_STOPS (3 / 10) = Inr c" by blast
  moreover have "scoreColor_on COLOR_STOPS (3 / 10) = Inr (Num 162, Num 183, Num 40)"
    by (simp add: scoreColor_on_def COLOR_STOPS_def span_of_def lerp_def js_div_def)
  ultimately show ?thesis using v by (simp add: between_def)
qed

text \<open>
  Claim C10: the interpolation is total and never divides by zero. The span it divides
  by is never 0. For every score it returns three integer channels within \<open>[0,255]\<close>,
  none of them \<open>NaN\<close> or infinite, on every valid stop list with channels in
  \<open>[0,255]\<close> and on its own table. When the bracket it selects has width zero, the
  span is replaced by 1 and the colour is that of the left stop of the bracket.
\<close>

theorem scoreColor_total:
  "span_of lo hi \<noteq> 0 \<and>
   (valid_stops stops \<and> channels_in_range stops \<longrightarrow>
      (\<exists>r g b. scoreColor_on stops x = Inr (Num r, Num g, Num b) \<and>
         0 \<le> r \<and> r \<le> 255 \<and> 0 \<le> g \<and> g \<le> 255 \<and> 0 \<le> b \<and> b \<le> 255)) \<and>
   (findBracket stops (clamp01 x) = Some (lo, hi) \<and> stop_t hi = stop_t lo \<longrightarrow>
      scoreColor_on stops x = Inr (Num (stop_r lo), Num (stop_g lo), Num (stop_b lo))) \<and>
   (\<exists>r g b. scoreColor x = Inr (Num r, Num g, Num b) \<and>
         0 \<le> r \<and> r \<le> 255 \<and> 0 \<le> g \<and> g \<le> 255 \<and> 0 \<le> b \<and> b \<le> 255)"
proof (intro conjI impI)
  show "span_of lo hi \<noteq> 0" by (rule span_of_nonzero)
next
  assume "valid_stops stops \<and> channels_in_range stops"
  then show "\<exists>r g b. scoreColor_on stops x = Inr (Num r, Num g, Num b) \<and>
         0 \<le> r \<and> r \<le> 255 \<and> 0 \<le> g \<and> g \<le> 255 \<and> 0 \<le> b \<and> b \<le> 255"
    using scoreColor_on_in_range by blast
next
  assume "findBracket stops (clamp01 x) = Some (lo, hi) \<and> stop_t hi = stop_t lo"
  then show "scoreColor_on stops x = Inr (Num (stop_r lo), Num (stop_g lo), Num (stop_b lo))"
    unfolding clamp01_def using scoreColor_on_zero_width by blast
next
  show "\<exists>r g b. scoreColor x = Inr (Num r, Num g, Num b) \<and>
         0 \<le> r \<and> r \<le> 255 \<and> 0 \<le> g \<and> g \<le> 255 \<and> 0 \<le> b \<and> b \<le> 255"
    by (rule scoreColor_in_range)
qed

text \<open>
  Claim C10 on a valid list whose first two stops share the position 0, at the score 0:
  the bracket selected is that pair, of width zero.
\<close>

theorem scoreColor_total_witness:
  "valid_stops zero_width_stops \<and> channels_in_range zero_width_stops \<and>
   findBracket zero_width_stops (clamp01 0) = Some (zero_width_stops ! 0, zero_width_stops ! 1) \<and>
   stop_t (zero_width_stops ! 1) = stop_t (zero_width_stops ! 0) \<and>
   scoreColor_on zero_width_stops 0 = Inr (Num 10, Num 20, Num 30)"
proof -
  have v: "valid_stops zero_width_stops"
    by (simp add: valid_stops_def zero_width_stops_def)
  have c: "channels_in_range zero_width_stops"
    by (simp add: channels_in_range_def zero_width_stops_def)
  have f: "findBracket zero_width_stops (clamp01 0) =
      Some (zero_width_stops ! 0, zero_width_stops ! 1)"
    by (simp add: zero_width_stops_def clamp01_def)
  have e: "stop_t (zero_width_stops ! 1) = stop_t (zero_width_stops ! 0)"
    by (simp add: zero_width_stops_def)
  from scoreColor_total
    [of "zero_width_stops ! 0" "zero_width_stops ! 1" zero_width_stops 0] f e
  have "scoreColor_on zero_width_stops 0 =
      Inr (Num (stop_r (zero_width_stops ! 0)), Num (stop_g (zero_width_stops ! 0)),
           Num (stop_b (zero_width_stops ! 0)))" by blast
  then have "scoreColor_on zero_width_stops 0 = Inr (Num 10, Num 20, Num 30)"
    by (simp add: zero_width_stops_def)
  with v c f e show ?thesis by blast
qed

section \<open>Properties of the distance\<close>

lemma haversine_via_a:
  "haversine err lat1 lng1 lat2 lng2 =
     js_times 12742
       (Math_atan2 (Math_sqrt (haversine_a err lat1 lng1 lat2 lng2))
                   (Math_sqrt (1 - haversine_a err lat1 lng1 lat2 lng2)))"
  by (simp add: haversine_def haversine_a_def Let_def)

text \<open>
  On a term within \<open>[0,1]\<close> the angle that \<open>Math.atan2\<close> returns is the arc sine of the
  square root of the term: the result is the haversine formula.
\<close>

lemma atan2_arcsin:
  assumes "0 \<le> a" "a \<le> 1"
  shows "atan2_finite (sqrt a) (sqrt (1 - a)) = arcsin (sqrt a)"
proof (cases "a = 1")
  case True
  then show ?thesis by (simp add: atan2_finite_def)
next
  case False
  with assms have lt: "a < 1" by simp
  define y where "y = sqrt a"
  have y0: "0 \<le> y" using assms(1) by (simp add: y_def)
  have y1: "y < 1" using lt assms(1) unfolding y_def by simp
  have ysq: "y\<^sup>2 = a" using assms(1) by (simp add: y_def)
  have b: "- (pi / 2) < arcsin y \<and> arcsin y < pi / 2"
    using y0 y1 by (intro arcsin_lt_bounded) simp_all
  have c: "cos (arcsin y) = sqrt (1 - a)"
    using y0 y1 by (simp add: cos_arcsin ysq)
  have s: "sin (arcsin y) = y" using y0 y1 by simp
  have "tan (arcsin y) = y / sqrt (1 - a)"
    by (simp add: tan_def s c)
  then have "arctan (y / sqrt (1 - a)) = arcsin y"
    using arctan_tan [of "arcsin y"] b by simp
  moreover have "0 < sqrt (1 - a)" using lt by simp
  ultimately show ?thesis by (simp add: atan2_finite_def y_def)
qed

lemma haversine_in_range:
  assumes "0 \<le> haversine_a err lat1 lng1 lat2 lng2" "haversine_a err lat1 lng1 lat2 lng2 \<le> 1"
  shows "haversine err lat1 lng1 lat2 lng2 =
           Num (6371 * 2 * arcsin (sqrt (haversine_a err lat1 lng1 lat2 lng2)))"
  using assms atan2_arcsin [OF assms]
  by (simp add: haversine_via_a Math_sqrt_def)

lemma haversine_NaN_iff:
  "haversine err lat1 lng1 lat2 lng2 = NaN \<longleftrightarrow>
     haversine_a err lat1 lng1 lat2 lng2 < 0 \<or> 1 < haversine_a err lat1 lng1 lat2 lng2"
  by (auto simp: haversine_via_a Math_sqrt_def)

lemma haversine_cases:
  "haversine err lat1 lng1 lat2 lng2 = NaN \<or> (\<exists>d. haversine err lat1 lng1 lat2 lng2 = Num d)"
  by (auto simp: haversine_via_a Math_sqrt_def)

lemma sin_half_angle_sq_sym:
  "(sin ((x - y) * pi / 180 / 2))\<^sup>2 = (sin ((y - x) * pi / 180 / 2))\<^sup>2"
proof -
  have "(x - y) * pi / 180 / 2 = - ((y - x) * pi / 180 / 2)"
    by (simp add: field_simps)
  then have "sin ((x - y) * pi / 180 / 2) = - sin ((y - x) * pi / 180 / 2)"
    by (simp only: sin_minus)
  then show ?thesis
    by (simp only: power2_minus)
qed

lemma haversine_a_sym:
  assumes "err lat1 lng1 lat2 lng2 = err lat2 lng2 lat1 lng1"
  shows "haversine_a err lat1 lng1 lat2 lng2 = haversine_a err lat2 lng2 lat1 lng1"
proof -
  have A: "(sin ((lat2 - lat1) * pi / 180 / 2))\<^sup>2 = (sin ((lat1 - lat2) * pi / 180 / 2))\<^sup>2"
    by (rule sin_half_angle_sq_sym)
  have B: "(sin ((lng2 - lng1) * pi / 180 / 2))\<^sup>2 = (sin ((lng1 - lng2) * pi / 180 / 2))\<^sup>2"
    by (rule sin_half_angle_sq_sym)
  have C: "cos (lat1 * pi / 180) * cos (lat2 * pi / 180) =
           cos (lat2 * pi / 180) * cos (lat1 * pi / 180)"
    by (rule mult.commute)
  show ?thesis unfolding haversine_a_def A B C assms by (rule refl)
qed

lemma haversine_sym:
  assumes "err lat1 lng1 lat2 lng2 = err lat2 lng2 lat1 lng1"
  shows "haversine err lat1 lng1 lat2 lng2 = haversine err lat2 lng2 lat1 lng1"
proof -
  from assms have "haversine_a err lat1 lng1 lat2 lng2 = haversine_a err lat2 lng2 lat1 lng1"
    by (rule haversine_a_sym [of err lat1 lng1 lat2 lng2])
  then show ?thesis by (simp only: haversine_via_a)
qed

lemma haversine_a_same: "haversine_a err lat lng lat lng = err lat lng lat lng"
  by (simp add: haversine_a_def)

lemma haversine_same:
  assumes "err lat lng lat lng = 0"
  shows "haversine err lat lng lat lng = Num 0"
  by (simp add: haversine_via_a haversine_a_same assms Math_sqrt_def atan2_finite_def)

text \<open>
  At the points \<open>(8, 0)\<close> and \<open>(-8, 180)\<close> the exact term is 1, so that any rounding
  upwards gives \<open>NaN\<close>.
\<close>

lemma haversine_a_antipodal: "haversine_a err 8 0 (- 8) 180 = 1 + err 8 0 (- 8) 180"
proof -
  have "(- 8 - 8) * pi / 180 / 2 = - (8 * pi / 180)" by simp
  then have s: "(sin ((- 8 - 8) * pi / 180 / 2))\<^sup>2 = (sin (8 * pi / 180))\<^sup>2"
    by (simp only: sin_minus power2_minus)
  have "- 8 * pi / 180 = - (8 * pi / 180)" by simp
  then have c: "cos (- 8 * pi / 180) = cos (8 * pi / 180)"
    by (simp only: cos_minus)
  have "(180 - 0) * pi / 180 / 2 = pi / 2" by simp
  then have h: "(sin ((180 - 0) * pi / 180 / 2))\<^sup>2 = 1" by simp
  have "(sin (8 * pi / 180))\<^sup>2 + cos (8 * pi / 180) * cos (8 * pi / 180) * 1 = 1"
    by (simp add: power2_eq_square [symmetric])
  then show ?thesis
    unfolding haversine_a_def s c h by simp
qed

lemma haversine_a_antipodal': "haversine_a err (- 8) 180 8 0 = 1 + err (- 8) 180 8 0"
proof -
  have "(8 - - 8) * pi / 180 / 2 = 8 * pi / 180" by simp
  then have s: "(sin ((8 - - 8) * pi / 180 / 2))\<^sup>2 = (sin (8 * pi / 180))\<^sup>2"
    by simp
  have "- 8 * pi / 180 = - (8 * pi / 180)" by simp
  then have c: "cos (- 8 * pi / 180) = cos (8 * pi / 180)"
    by (simp only: cos_minus)
  have "(0 - 180) * pi / 180 / 2 = - (pi / 2)" by simp
  then have "sin ((0 - 180) * pi / 180 / 2) = - 1" by (simp only: sin_minus sin_pi_half)
  then have h: "(sin ((0 - 180) * pi / 180 / 2))\<^sup>2 = 1" by simp
  have "(sin (8 * pi / 180))\<^sup>2 + cos (8 * pi / 180) * cos (8 * pi / 180) * 1 = 1"
    by (simp add: power2_eq_square [symmetric])
  then show ?thesis
    unfolding haversine_a_def s c h by (simp add: mult.commute)
qed

lemma haversine_antipodal_NaN:
  "0 < err 8 0 (- 8) 180 \<Longrightarrow> haversine err 8 0 (- 8) 180 = NaN"
  by (simp add: haversine_NaN_iff haversine_a_antipodal)

lemma haversine_antipodal_NaN':
  "0 < err (- 8) 180 8 0 \<Longrightarrow> haversine err (- 8) 180 8 0 = NaN"
  by (simp add: haversine_NaN_iff haversine_a_antipodal')

lemma haversine_half_circle: "haversine exact 0 0 0 180 = Num (6371 * pi)"
proof -
  have a: "haversine_a exact 0 0 0 180 = 1" by (simp add: haversine_a_def exact_def)
  show ?thesis using haversine_in_range [of exact 0 0 0 180] by (simp add: a)
qed

text \<open>
  Claim C9, as the specification states it: for every pair of points the distance from
  the first to the second equals the distance from the second to the first. At the points
  \<open>(8, 0)\<close> and \<open>(-8, 180)\<close> the term \<open>a\<close> is rounded to \<open>1.0000000000000002\<close>, the square
  root of \<open>1 - a\<close> is \<open>NaN\<close>, and the distance is \<open>NaN\<close> in both orders: the two
  distances are not equal, since \<open>NaN\<close> equals nothing, and no difference of them is
  within a tolerance.
\<close>

theorem haversine_antipodal_not_equal:
  "haversine antipodal_ulp 8 0 (- 8) 180 = NaN \<and> haversine antipodal_ulp (- 8) 180 8 0 = NaN \<and>
   \<not> js_eq (haversine antipodal_ulp 8 0 (- 8) 180) (haversine antipodal_ulp (- 8) 180 8 0)"
proof -
  have a: "haversine antipodal_ulp 8 0 (- 8) 180 = NaN"
    by (rule haversine_antipodal_NaN) (simp add: antipodal_ulp_def)
  have b: "haversine antipodal_ulp (- 8) 180 8 0 = NaN"
    by (rule haversine_antipodal_NaN') (simp add: antipodal_ulp_def)
  show ?thesis unfolding a b by (simp add: js_eq_def)
qed

text \<open>
  Claim C9, amended: the distance is \<open>NaN\<close> exactly when the computed haversine term
  \<open>a\<close> is outside \<open>[0,1]\<close>, which rounding brings about for nearly antipodal points.
  When the term is within \<open>[0,1]\<close> the distance is the haversine formula with Earth
  radius 6371 km, \<open>6371 * 2 * arcsin (sqrt a)\<close>, and, the term being rounded alike in
  the two orders, the distance from the first point to the second equals the distance
  from the second to the first. The distance from a point to itself, where the term is
  computed without error, is 0.
\<close>

theorem haversine_distance:
  "(haversine err lat1 lng1 lat2 lng2 = NaN \<longleftrightarrow>
      haversine_a err lat1 lng1 lat2 lng2 < 0 \<or> 1 < haversine_a err lat1 lng1 lat2 lng2) \<and>
   (0 \<le> haversine_a err lat1 lng1 lat2 lng2 \<and> haversine_a err lat1 lng1 lat2 lng2 \<le> 1 \<longrightarrow>
      haversine err lat1 lng1 lat2 lng2 =
        Num (6371 * 2 * arcsin (sqrt (haversine_a err lat1 lng1 lat2 lng2)))) \<and>
   (0 \<le> haversine_a err lat1 lng1 lat2 lng2 \<and> haversine_a err lat1 lng1 lat2 lng2 \<le> 1 \<and>
    err lat1 lng1 lat2 lng2 = err lat2 lng2 lat1 lng1 \<longrightarrow>
      js_eq (haversine err lat1 lng1 lat2 lng2) (haversine err lat2 lng2 lat1 lng1)) \<and>
   (err lat lng lat lng = 0 \<longrightarrow> haversine err lat lng lat lng = Num 0)"
proof (intro conjI impI)
  show "haversine err lat1 lng1 lat2 lng2 = NaN \<longleftrightarrow>
      haversine_a err lat1 lng1 lat2 lng2 < 0 \<or> 1 < haversine_a err lat1 lng1 lat2 lng2"
    by (rule haversine_NaN_iff)
next
  assume "0 \<le> haversine_a err lat1 lng1 lat2 lng2 \<and> haversine_a err lat1 lng1 lat2 lng2 \<le> 1"
  then show "haversine err lat1 lng1 lat2 lng2 =
        Num (6371 * 2 * arcsin (sqrt (haversine_a err lat1 lng1 lat2 lng2)))"
    using haversine_in_range by blast
next
  assume h: "0 \<le> haversine_a err lat1 lng1 lat2 lng2 \<and>
    haversine_a err lat1 lng1 lat2 lng2 \<le> 1 \<and>
    err lat1 lng1 lat2 lng2 = err lat2 lng2 lat1 lng1"
  then have s: "haversine err lat2 lng2 lat1 lng1 = haversine err lat1 lng1 lat2 lng2"
    using haversine_sym [of err lat1 lng1 lat2 lng2] by simp
  from h obtain d where "haversine err lat1 lng1 lat2 lng2 = Num d"
    using haversine_in_range [of err lat1 lng1 lat2 lng2] by blast
  then show "js_eq (haversine err lat1 lng1 lat2 lng2) (haversine err lat2 lng2 lat1 lng1)"
    unfolding s by (simp add: js_eq_def)
next
  assume "err lat lng lat lng = 0"
  then show "haversine err lat lng lat lng = Num 0" by (rule haversine_same)
qed

text \<open>
  The amended claim C9 in exact arithmetic: half the circumference between \<open>(0, 0)\<close>
  and \<open>(0, 180)\<close> in either order, and 0 from \<open>(51, 0)\<close> to itself.
\<close>

theorem haversine_distance_witness:
  "0 \<le> haversine_a exact 0 0 0 180 \<and> haversine_a exact 0 0 0 180 \<le> 1 \<and>
   exact 0 0 0 180 = exact 0 180 0 0 \<and> exact 51 0 51 0 = 0 \<and>
   haversine exact 0 0 0 180 = Num (6371 * pi) \<and>
   js_eq (haversine exact 0 0 0 180) (haversine exact 0 180 0 0) \<and>
   haversine exact 51 0 51 0 = Num 0"
proof -
  have a: "haversine_a exact 0 0 0 180 = 1" by (simp add: haversine_a_def exact_def)
  have e: "exact 0 0 0 180 = exact 0 180 0 0" and z: "exact 51 0 51 0 = 0"
    by (simp_all add: exact_def)
  note th = haversine_distance [of exact 0 0 0 180 51 0]
  from th have
    c2: "0 \<le> haversine_a exact 0 0 0 180 \<and> haversine_a exact 0 0 0 180 \<le> 1 \<longrightarrow>
         haversine exact 0 0 0 180 = Num (6371 * 2 * arcsin (sqrt (haversine_a exact 0 0 0 180)))"
    and c3: "0 \<le> haversine_a exact 0 0 0 180 \<and> haversine_a exact 0 0 0 180 \<le> 1 \<and>
         exact 0 0 0 180 = exact 0 180 0 0 \<longrightarrow>
         js_eq (haversine exact 0 0 0 180) (haversine exact 0 180 0 0)"
    and c4: "exact 51 0 51 0 = 0 \<longrightarrow> haversine exact 51 0 51 0 = Num 0"
    by blast+
  from c2 have p1: "haversine exact 0 0 0 180 = Num (6371 * pi)" by (simp add: a)
  from c3 e have p2: "js_eq (haversine exact 0 0 0 180) (haversine exact 0 180 0 0)"
    by (simp add: a)
  from c4 z have p3: "haversine exact 51 0 51 0 = Num 0" by blast
  show ?thesis
  proof (intro conjI)
    show "0 \<le> haversine_a exact 0 0 0 180" "haversine_a exact 0 0 0 180 \<le> 1"
      by (simp_all add: a)
    show "exact 0 0 0 180 = exact 0 180 0 0" by (rule e)
    show "exact 51 0 51 0 = 0" by (rule z)
    show "haversine exact 0 0 0 180 = Num (6371 * pi)" by (rule p1)
    show "js_eq (haversine exact 0 0 0 180) (haversine exact 0 180 0 0)" by (rule p2)
    show "haversine exact 51 0 51 0 = Num 0" by (rule p3)
  qed
qed


section \<open>Properties of the nearest station\<close>

lemma distTo_cases:
  "distTo err lat lng st = NaN \<or> (\<exists>d. distTo err lat lng st = Num d)"
  unfolding distTo_def by (rule haversine_cases)

lemma js_less_PosInf_distTo:
  "js_less (distTo err lat lng st) PosInf \<longleftrightarrow> distTo err lat lng st \<noteq> NaN"
  using distTo_cases [of err lat lng st] by auto

text \<open>
  The invariant of the loop of \<open>_nearestStation\<close>: either no entry was closer than
  \<open>bestDist\<close> and \<open>best\<close> is unchanged, or the result is the first entry of least
  distance among the entries whose distance is a number, and that distance is below
  \<open>bestDist\<close>.
\<close>

lemma nearestStation_loop_inv:
  assumes "bd = PosInf \<or> (\<exists>b. bd = Num b)"
  shows
  "(nearestStation_loop err lat lng sts best bd = best \<and>
      (\<forall>j<length sts. \<not> js_less (distTo err lat lng (snd (sts ! j))) bd)) \<or>
   (\<exists>i<length sts. \<exists>di.
      nearestStation_loop err lat lng sts best bd = Some (snd (sts ! i)) \<and>
      distTo err lat lng (snd (sts ! i)) = Num di \<and>
      js_less (Num di) bd \<and>
      (\<forall>j<length sts. \<forall>dj. distTo err lat lng (snd (sts ! j)) = Num dj \<longrightarrow> di \<le> dj) \<and>
      (\<forall>j<i. \<forall>dj. distTo err lat lng (snd (sts ! j)) = Num dj \<longrightarrow> di < dj))"
  using assms
proof (induction sts arbitrary: best bd)
  case Nil
  then show ?case by simp
next
  case (Cons e rest)
  obtain code st where e: "e = (code, st)" by (cases e)
  define d where "d = distTo err lat lng st"
  let ?D = "\<lambda>xs k. distTo err lat lng (snd (xs ! k))"
  have later: "Suc i < length (e # rest) \<and>
          nearestStation_loop err lat lng (e # rest) best bd = Some (snd ((e # rest) ! Suc i)) \<and>
          ?D (e # rest) (Suc i) = Num di \<and>
          js_less (Num di) bd \<and>
          (\<forall>j<length (e # rest). \<forall>dj. ?D (e # rest) j = Num dj \<longrightarrow> di \<le> dj) \<and>
          (\<forall>j<Suc i. \<forall>dj. ?D (e # rest) j = Num dj \<longrightarrow> di < dj)"
    if i: "i < length rest"
      and r: "nearestStation_loop err lat lng (e # rest) best bd = Some (snd (rest ! i))"
      and v: "?D rest i = Num di"
      and c: "js_less (Num di) bd"
      and lt: "\<forall>dj. d = Num dj \<longrightarrow> di < dj"
      and m: "\<forall>j<length rest. \<forall>dj. ?D rest j = Num dj \<longrightarrow> di \<le> dj"
      and f: "\<forall>j<i. \<forall>dj. ?D rest j = Num dj \<longrightarrow> di < dj" for i di
  proof -
    have m': "\<forall>j<length (e # rest). \<forall>dj. ?D (e # rest) j = Num dj \<longrightarrow> di \<le> dj"
    proof (intro allI impI)
      fix j dj assume "j < length (e # rest)" "?D (e # rest) j = Num dj"
      then show "di \<le> dj"
        using m lt by (cases j) (auto simp: e d_def dest: less_imp_le)
    qed
    have f': "\<forall>j<Suc i. \<forall>dj. ?D (e # rest) j = Num dj \<longrightarrow> di < dj"
    proof (intro allI impI)
      fix j dj assume "j < Suc i" "?D (e # rest) j = Num dj"
      then show "di < dj"
        using f lt by (cases j) (auto simp: e d_def)
    qed
    show ?thesis using i r v c m' f' by simp
  qed
  show ?case
  proof (cases "js_less d bd")
    case True
    with distTo_cases [of err lat lng st] obtain x where x: "d = Num x"
      unfolding d_def by auto
    have step: "nearestStation_loop err lat lng (e # rest) best bd =
        nearestStation_loop err lat lng rest (Some st) (Num x)"
      using True x by (simp add: e d_def distTo_def)
    have shape: "Num x = PosInf \<or> (\<exists>b. Num x = Num b)" by simp
    from Cons.IH [OF shape, of "Some st"] show ?thesis
    proof (elim disjE exE conjE)
      assume r: "nearestStation_loop err lat lng rest (Some st) (Num x) = Some st"
        and n: "\<forall>j<length rest. \<not> js_less (?D rest j) (Num x)"
      have "\<forall>j<length (e # rest). \<forall>dj. ?D (e # rest) j = Num dj \<longrightarrow> x \<le> dj"
      proof (intro allI impI)
        fix j dj assume "j < length (e # rest)" "?D (e # rest) j = Num dj"
        then show "x \<le> dj"
          using n x by (cases j) (auto simp: e d_def)
      qed
      then have "0 < length (e # rest) \<and>
          nearestStation_loop err lat lng (e # rest) best bd = Some (snd ((e # rest) ! 0)) \<and>
          ?D (e # rest) 0 = Num x \<and> js_less (Num x) bd \<and>
          (\<forall>j<length (e # rest). \<forall>dj. ?D (e # rest) j = Num dj \<longrightarrow> x \<le> dj) \<and>
          (\<forall>j<0. \<forall>dj. ?D (e # rest) j = Num dj \<longrightarrow> x < dj)"
        using step r True x by (simp add: e d_def)
      then show ?thesis by blast
    next
      fix i di
      assume i: "i < length rest"
        and r: "nearestStation_loop err lat lng rest (Some st) (Num x) = Some (snd (rest ! i))"
        and v: "?D rest i = Num di"
        and c: "js_less (Num di) (Num x)"
        and m: "\<forall>j<length rest. \<forall>dj. ?D rest j = Num dj \<longrightarrow> di \<le> dj"
        and f: "\<forall>j<i. \<forall>dj. ?D rest j = Num dj \<longrightarrow> di < dj"
      from c have lt: "di < x" by simp
      with True x Cons.prems have c': "js_less (Num di) bd" by auto
      from lt x have lt': "\<forall>dj. d = Num dj \<longrightarrow> di < dj" by simp
      from later [OF i _ v c' lt' m f] step r show ?thesis by auto
    qed
  next
    case False
    then have step: "nearestStation_loop err lat lng (e # rest) best bd =
        nearestStation_loop err lat lng rest best bd"
      by (simp add: e d_def distTo_def)
    from Cons.IH [OF Cons.prems, of best] show ?thesis
    proof (elim disjE exE conjE)
      assume r: "nearestStation_loop err lat lng rest best bd = best"
        and n: "\<forall>j<length rest. \<not> js_less (?D rest j) bd"
      have "\<forall>j<length (e # rest). \<not> js_less (?D (e # rest) j) bd"
      proof (intro allI impI)
        fix j assume "j < length (e # rest)"
        then show "\<not> js_less (?D (e # rest) j) bd"
          using n False by (cases j) (auto simp: e d_def)
      qed
      with step r show ?thesis by simp
    next
      fix i di
      assume i: "i < length rest"
        and r: "nearestStation_loop err lat lng rest best bd = Some (snd (rest ! i))"
        and v: "?D rest i = Num di"
        and c: "js_less (Num di) bd"
        and m: "\<forall>j<length rest. \<forall>dj. ?D rest j = Num dj \<longrightarrow> di \<le> dj"
        and f: "\<forall>j<i. \<forall>dj. ?D rest j = Num dj \<longrightarrow> di < dj"
      have lt': "\<forall>dj. d = Num dj \<longrightarrow> di < dj"
      proof (intro allI impI)
        fix dj assume "d = Num dj"
        with False c Cons.prems show "di < dj" by auto
      qed
      from later [OF i _ v c lt' m f] step r show ?thesis by auto
    qed
  qed
qed

lemma nearestStation_Nil: "nearestStation err lat lng [] = None"
  by (simp add: nearestStation_def)

lemma nearestStation_None_iff:
  "nearestStation err lat lng sts = None \<longleftrightarrow>
     (\<forall>j<length sts. distTo err lat lng (snd (sts ! j)) = NaN)"
proof -
  have shape: "(PosInf :: real number) = PosInf \<or> (\<exists>b. PosInf = Num b)" by simp
  from nearestStation_loop_inv [OF shape, of err lat lng sts None]
  show ?thesis
    unfolding nearestStation_def js_less_PosInf_distTo by auto
qed

lemma nearestStation_Some:
  assumes "nearestStation err lat lng sts = Some st"
  shows "\<exists>i<length sts. \<exists>di.
      st = snd (sts ! i) \<and> distTo err lat lng (snd (sts ! i)) = Num di \<and>
      (\<forall>j<length sts. \<forall>dj. distTo err lat lng (snd (sts ! j)) = Num dj \<longrightarrow> di \<le> dj) \<and>
      (\<forall>j<i. \<forall>dj. distTo err lat lng (snd (sts ! j)) = Num dj \<longrightarrow> di < dj)"
proof -
  have shape: "(PosInf :: real number) = PosInf \<or> (\<exists>b. PosInf = Num b)" by simp
  from nearestStation_loop_inv [OF shape, of err lat lng sts None] assms
  show ?thesis
    unfolding nearestStation_def by auto
qed

lemma nearestStation_single:
  "distTo err lat lng st = Num d \<Longrightarrow> nearestStation err lat lng [(k, st)] = Some st"
  by (simp add: nearestStation_def distTo_def)

text \<open>
  Claim C4, as the specification states it: the nearest station is \<open>null\<close> exactly when
  the mapping is empty. For the point \<open>(8, 0)\<close> and the one station at \<open>(-8, 180)\<close> the
  distance is \<open>NaN\<close>, the test \<open>d < bestDist\<close> is false, and the result is \<open>null\<close> on a
  mapping that is not empty.
\<close>

theorem nearestStation_null_on_nonempty:
  "[(''X'', stAnti)] \<noteq> [] \<and> distTo antipodal_ulp 8 0 stAnti = NaN \<and>
   nearestStation antipodal_ulp 8 0 [(''X'', stAnti)] = None"
proof -
  have a: "haversine antipodal_ulp 8 0 (- 8) 180 = NaN"
    by (rule haversine_antipodal_NaN) (simp add: antipodal_ulp_def)
  then show ?thesis
    by (simp add: nearestStation_def distTo_def stAnti_def)
qed

text \<open>
  Claim C4, amended: the nearest station is \<open>null\<close> exactly when no entry of the mapping
  has a distance to the point that is a number, as on the empty mapping; an entry whose
  distance is \<open>NaN\<close> is passed over. Otherwise the result is an entry whose distance is a
  number at most that of every entry with a numeric distance, and among the entries of
  least distance it is the first in iteration order: every entry before it with a
  numeric distance is strictly farther.
\<close>

theorem nearestStation_minimal:
  "nearestStation err lat lng [] = None \<and>
   (nearestStation err lat lng sts = None \<longleftrightarrow>
      (\<forall>j<length sts. distTo err lat lng (snd (sts ! j)) = NaN)) \<and>
   (nearestStation err lat lng sts = Some st \<longrightarrow>
      (\<exists>i<length sts. \<exists>di.
         st = snd (sts ! i) \<and> distTo err lat lng (snd (sts ! i)) = Num di \<and>
         (\<forall>j<length sts. \<forall>dj. distTo err lat lng (snd (sts ! j)) = Num dj \<longrightarrow> di \<le> dj) \<and>
         (\<forall>j<i. \<forall>dj. distTo err lat lng (snd (sts ! j)) = Num dj \<longrightarrow> di < dj)))"
  using nearestStation_Nil [of err lat lng] nearestStation_None_iff [of err lat lng sts]
    nearestStation_Some [of err lat lng sts st]
  by blast

lemma distTo_here: "distTo exact 51 0 stA = Num 0" "distTo exact 51 0 stB = Num 0"
  by (simp_all add: distTo_def stA_def stB_def haversine_same exact_def)

text \<open>
  The amended claim C4 on two stations at the same distance from the point, where the
  first one wins; on a station at distance \<open>NaN\<close> followed by one at a numeric distance,
  where the second is returned; and on the empty mapping.
\<close>

theorem nearestStation_minimal_witness:
  "distTo exact 51 0 stA = Num 0 \<and> distTo exact 51 0 stB = Num 0 \<and>
   nearestStation exact 51 0 [(''A'', stA), (''B'', stB)] = Some stA \<and>
   nearestStation exact 51 0 [(''A'', stA), (''B'', stB)] \<noteq> None \<and>
   distTo antipodal_ulp 8 0 stAnti = NaN \<and> distTo antipodal_ulp 8 0 stHere = Num 0 \<and>
   nearestStation antipodal_ulp 8 0 [(''X'', stAnti), (''H'', stHere)] = Some stHere \<and>
   nearestStation exact 51 0 [] = None"
proof -
  have t: "nearestStation exact 51 0 [(''A'', stA), (''B'', stB)] = Some stA"
    using distTo_here by (simp add: nearestStation_def distTo_def)
  have n: "distTo antipodal_ulp 8 0 stAnti = NaN"
    unfolding distTo_def stAnti_def
    using haversine_antipodal_NaN [of antipodal_ulp] by (simp add: antipodal_ulp_def)
  have h: "distTo antipodal_ulp 8 0 stHere = Num 0"
    unfolding distTo_def stHere_def
    by (simp add: haversine_same antipodal_ulp_def)
  have s: "nearestStation antipodal_ulp 8 0 [(''X'', stAnti), (''H'', stHere)] = Some stHere"
    using n h by (simp add: nearestStation_def distTo_def)
  from nearestStation_minimal [of exact 51 0 "[(''A'', stA), (''B'', stB)]" stA]
    distTo_here t n h s
  show ?thesis by simp
qed

section \<open>Properties of the combined score\<close>

lemma computeScore_depComp:
  "depComp (computeScore err l sts) =
     (case imd_decile l of Some d \<Rightarrow> (11 - real_of_int d) / 10 | None \<Rightarrow> 1 / 2)"
  by (simp add: computeScore_def Let_def split: option.splits prod.splits)

lemma computeScore_aqComp:
  "aqComp (computeScore err l sts) =
     (case nearestSt (computeScore err l sts) of
        Some st \<Rightarrow> (case maxAQI st of Some m \<Rightarrow> min (m / 10) 1 | None \<Rightarrow> 1 / 2)
      | None \<Rightarrow> 1 / 2)"
  by (simp add: computeScore_def Let_def split: option.splits prod.splits)

lemma computeScore_noiseComp: "noiseComp (computeScore err l sts) = 1 / 2"
  by (simp add: computeScore_def Let_def split: option.splits prod.splits)

lemma computeScore_score:
  "score (computeScore err l sts) =
     4 / 10 * depComp (computeScore err l sts) + 4 / 10 * aqComp (computeScore err l sts) +
     2 / 10 * noiseComp (computeScore err l sts)"
  by (simp add: computeScore_def Let_def split: option.splits prod.splits)

lemma computeScore_nearestSt:
  "nearestSt (computeScore err l sts) =
     (if sts = [] then None
      else case lsoa_centroid l of
             None \<Rightarrow> None
           | Some (lat, lng) \<Rightarrow> nearestStation err lat lng sts)"
  by (simp add: computeScore_def Let_def split: option.splits prod.splits)

lemma depComp_range:
  assumes "decile_in_range l"
  shows "0 \<le> depComp (computeScore err l sts) \<and> depComp (computeScore err l sts) \<le> 1"
proof (cases "imd_decile l")
  case None
  then show ?thesis by (simp add: computeScore_depComp)
next
  case (Some d)
  with assms have "1 \<le> d" "d \<le> 10" by (simp_all add: decile_in_range_def)
  then have "1 \<le> real_of_int d" "real_of_int d \<le> 10" by simp_all
  then show ?thesis by (simp add: computeScore_depComp Some)
qed

lemma aqComp_range:
  assumes "index_nonneg (nearestSt (computeScore err l sts))"
  shows "0 \<le> aqComp (computeScore err l sts) \<and> aqComp (computeScore err l sts) \<le> 1"
  using assms unfolding computeScore_aqComp [of err l sts]
  by (simp add: index_nonneg_def split: option.splits)

lemma clamp01_id: "0 \<le> x \<Longrightarrow> x \<le> 1 \<Longrightarrow> clamp01 x = x"
  by (simp add: clamp01_def)

lemma nearestSt_single:
  "distTo err lat lng st = Num d \<Longrightarrow>
   nearestSt (computeScore err
      \<lparr>lsoa_code = c, imd_decile = dc, lsoa_centroid = Some (lat, lng)\<rparr> [(k, st)]) = Some st"
  by (simp add: computeScore_nearestSt nearestStation_single)

lemma distTo_sample:
  "distTo exact 51 0 stA = Num 0" "distTo exact 51 0 stB = Num 0"
  "distTo exact 51 0 stNeg = Num 0"
  by (simp_all add: distTo_def stA_def stB_def stNeg_def haversine_same exact_def)

text \<open>
  Claim C1, as the specification states it: the combined score is the weighted sum of
  the components clamped to \<open>[0,1]\<close> and always lies in \<open>[0,1]\<close>. The program applies no
  clamp: for a region of decile 10 whose nearest station reports the index \<open>-10\<close> the
  air-quality component is \<open>-1\<close> and the score is \<open>-0.26\<close>, which is below 0 and is not
  the weighted sum of the clamped components.
\<close>

theorem computeScore_unclamped:
  "aqComp (computeScore exact lsoa10 [(''N'', stNeg)]) = - 1 \<and>
   score (computeScore exact lsoa10 [(''N'', stNeg)]) = - 26 / 100 \<and>
   score (computeScore exact lsoa10 [(''N'', stNeg)]) < 0 \<and>
   score (computeScore exact lsoa10 [(''N'', stNeg)]) \<noteq>
     4 / 10 * clamp01 (depComp (computeScore exact lsoa10 [(''N'', stNeg)])) +
     4 / 10 * clamp01 (aqComp (computeScore exact lsoa10 [(''N'', stNeg)])) +
     2 / 10 * clamp01 (noiseComp (computeScore exact lsoa10 [(''N'', stNeg)]))"
proof -
  have n: "nearestSt (computeScore exact lsoa10 [(''N'', stNeg)]) = Some stNeg"
    unfolding lsoa10_def by (rule nearestSt_single) (rule distTo_sample)
  have a: "aqComp (computeScore exact lsoa10 [(''N'', stNeg)]) = - 1"
    unfolding computeScore_aqComp [of exact lsoa10] n by (simp add: stNeg_def)
  have d: "depComp (computeScore exact lsoa10 [(''N'', stNeg)]) = 1 / 10"
    by (simp add: computeScore_depComp lsoa10_def)
  note s = computeScore_score [of exact lsoa10 "[(''N'', stNeg)]"]
  note nz = computeScore_noiseComp [of exact lsoa10 "[(''N'', stNeg)]"]
  show ?thesis unfolding s a d nz by (simp add: clamp01_def)
qed

text \<open>
  Claim C1, amended: for every region and station mapping the combined score is
  \<open>0.4\<close> times the deprivation component plus \<open>0.4\<close> times the air-quality component
  plus \<open>0.2\<close> times the noise component, the components taken as computed, without a
  clamp. When the decile, if present, is in 1..10 and the index of the matched station,
  if present, is not negative, every component lies in \<open>[0,1]\<close>, so that clamping
  them changes nothing, and the combined score lies in \<open>[0,1]\<close>.
\<close>

theorem computeScore_weighted:
  "score (computeScore err l sts) =
     4 / 10 * depComp (computeScore err l sts) + 4 / 10 * aqComp (computeScore err l sts) +
     2 / 10 * noiseComp (computeScore err l sts) \<and>
   (decile_in_range l \<and> index_nonneg (nearestSt (computeScore err l sts)) \<longrightarrow>
      clamp01 (depComp (computeScore err l sts)) = depComp (computeScore err l sts) \<and>
      clamp01 (aqComp (computeScore err l sts)) = aqComp (computeScore err l sts) \<and>
      clamp01 (noiseComp (computeScore err l sts)) = noiseComp (computeScore err l sts) \<and>
      0 \<le> score (computeScore err l sts) \<and> score (computeScore err l sts) \<le> 1)"
proof (intro conjI impI)
  show "score (computeScore err l sts) =
     4 / 10 * depComp (computeScore err l sts) + 4 / 10 * aqComp (computeScore err l sts) +
     2 / 10 * noiseComp (computeScore err l sts)"
    by (rule computeScore_score)
next
  assume h: "decile_in_range l \<and> index_nonneg (nearestSt (computeScore err l sts))"
  then have d: "0 \<le> depComp (computeScore err l sts) \<and> depComp (computeScore err l sts) \<le> 1"
    using depComp_range by blast
  from h have a: "0 \<le> aqComp (computeScore err l sts) \<and> aqComp (computeScore err l sts) \<le> 1"
    using aqComp_range by blast
  note n = computeScore_noiseComp [of err l sts]
  note s = computeScore_score [of err l sts]
  show "clamp01 (depComp (computeScore err l sts)) = depComp (computeScore err l sts)"
    using d by (simp add: clamp01_id)
  show "clamp01 (aqComp (computeScore err l sts)) = aqComp (computeScore err l sts)"
    using a by (simp add: clamp01_id)
  show "clamp01 (noiseComp (computeScore err l sts)) = noiseComp (computeScore err l sts)"
    unfolding n by (simp add: clamp01_def)
  show "0 \<le> score (computeScore err l sts)" using d a unfolding s n by simp
  show "score (computeScore err l sts) \<le> 1" using d a unfolding s n by simp
qed

text \<open>
  The amended claim C1 on a region of decile 1 next to a station of index 10.
\<close>

theorem computeScore_weighted_witness:
  "decile_in_range lsoa1 \<and>
   index_nonneg (nearestSt (computeScore exact lsoa1 [(''A'', stA)])) \<and>
   0 \<le> score (computeScore exact lsoa1 [(''A'', stA)]) \<and>
   score (computeScore exact lsoa1 [(''A'', stA)]) \<le> 1"
proof -
  have n: "nearestSt (computeScore exact lsoa1 [(''A'', stA)]) = Some stA"
    unfolding lsoa1_def by (rule nearestSt_single) (rule distTo_sample)
  have d: "decile_in_range lsoa1" by (simp add: decile_in_range_def lsoa1_def)
  have m: "index_nonneg (nearestSt (computeScore exact lsoa1 [(''A'', stA)]))"
    unfolding n by (simp add: index_nonneg_def stA_def)
  from computeScore_weighted [of exact lsoa1 "[(''A'', stA)]"] d m show ?thesis by blast
qed

text \<open>
  Claim C2: the score computation has no failing branch, and absent data gives the
  neutral value. If the station mapping is empty or the region has no centroid, the
  air-quality component is \<open>0.5\<close> and there is no matched station; if the decile is
  absent and the mapping is empty, the combined score is exactly \<open>0.5\<close>.
\<close>

theorem computeScore_neutral:
  "(sts = [] \<or> lsoa_centroid l = None \<longrightarrow>
      aqComp (computeScore err l sts) = 1 / 2 \<and> nearestSt (computeScore err l sts) = None) \<and>
   (imd_decile l = None \<and> sts = [] \<longrightarrow> score (computeScore err l sts) = 1 / 2)"
  by (auto simp: computeScore_def Let_def)

text \<open>
  Claim C2 on a region without centroid and decile, with one station and with none, and
  on a region with both and no station.
\<close>

theorem computeScore_neutral_witness:
  "lsoa_centroid lsoaNone = None \<and> imd_decile lsoaNone = None \<and>
   aqComp (computeScore exact lsoaNone [(''A'', stA)]) = 1 / 2 \<and>
   nearestSt (computeScore exact lsoaNone [(''A'', stA)]) = None \<and>
   aqComp (computeScore exact lsoa1 []) = 1 / 2 \<and>
   nearestSt (computeScore exact lsoa1 []) = None \<and>
   score (computeScore exact lsoaNone []) = 1 / 2"
  using computeScore_neutral [where sts = "[(''A'', stA)]" and l = lsoaNone and err = exact]
    computeScore_neutral [where sts = "[]" and l = lsoa1 and err = exact]
    computeScore_neutral [where sts = "[]" and l = lsoaNone and err = exact]
  by (simp add: lsoaNone_def)

text \<open>
  Claim C3: the deprivation component is \<open>(11 - decile) / 10\<close> when the decile is
  present and \<open>0.5\<close> otherwise; the air-quality component is the smaller of a tenth of
  the matched station's index and 1 when a station with an index is matched, and
  \<open>0.5\<close> otherwise; the noise component is \<open>0.5\<close>. With decile 1 and a matched station
  of index 10 the components are 1, 1 and \<open>0.5\<close>, and the combined score is \<open>0.9\<close>.
\<close>

theorem computeScore_components:
  "depComp (computeScore err l sts) =
     (case imd_decile l of Some d \<Rightarrow> (11 - real_of_int d) / 10 | None \<Rightarrow> 1 / 2) \<and>
   aqComp (computeScore err l sts) =
     (case nearestSt (computeScore err l sts) of
        Some st \<Rightarrow> (case maxAQI st of Some m \<Rightarrow> min (m / 10) 1 | None \<Rightarrow> 1 / 2)
      | None \<Rightarrow> 1 / 2) \<and>
   noiseComp (computeScore err l sts) = 1 / 2 \<and>
   (imd_decile l = Some 1 \<and> nearestSt (computeScore err l sts) = Some st \<and>
    maxAQI st = Some 10 \<longrightarrow>
      depComp (computeScore err l sts) = 1 \<and> aqComp (computeScore err l sts) = 1 \<and>
      noiseComp (computeScore err l sts) = 1 / 2 \<and> score (computeScore err l sts) = 9 / 10)"
proof (intro conjI impI)
  show "depComp (computeScore err l sts) =
     (case imd_decile l of Some d \<Rightarrow> (11 - real_of_int d) / 10 | None \<Rightarrow> 1 / 2)"
    by (rule computeScore_depComp)
  show "aqComp (computeScore err l sts) =
     (case nearestSt (computeScore err l sts) of
        Some st \<Rightarrow> (case maxAQI st of Some m \<Rightarrow> min (m / 10) 1 | None \<Rightarrow> 1 / 2)
      | None \<Rightarrow> 1 / 2)"
    by (rule computeScore_aqComp)
  show "noiseComp (computeScore err l sts) = 1 / 2"
    by (rule computeScore_noiseComp)
next
  assume h: "imd_decile l = Some 1 \<and> nearestSt (computeScore err l sts) = Some st \<and>
             maxAQI st = Some 10"
  have d: "depComp (computeScore err l sts) = 1"
    using h by (simp add: computeScore_depComp)
  have a: "aqComp (computeScore err l sts) = 1"
    using h by (simp add: computeScore_aqComp [of err l sts])
  note n = computeScore_noiseComp [of err l sts]
  show "depComp (computeScore err l sts) = 1" by (rule d)
  show "aqComp (computeScore err l sts) = 1" by (rule a)
  show "noiseComp (computeScore err l sts) = 1 / 2" by (rule n)
  show "score (computeScore err l sts) = 9 / 10"
    unfolding computeScore_score [of err l sts] d a n by simp
qed

text \<open>
  Claim C3 on a region of decile 1 whose only station has index 10.
\<close>

theorem computeScore_components_witness:
  "imd_decile lsoa1 = Some 1 \<and>
   nearestSt (computeScore exact lsoa1 [(''A'', stA)]) = Some stA \<and>
   maxAQI stA = Some 10 \<and>
   depComp (computeScore exact lsoa1 [(''A'', stA)]) = 1 \<and>
   aqComp (computeScore exact lsoa1 [(''A'', stA)]) = 1 \<and>
   noiseComp (computeScore exact lsoa1 [(''A'', stA)]) = 1 / 2 \<and>
   score (computeScore exact lsoa1 [(''A'', stA)]) = 9 / 10"
proof -
  have n: "nearestSt (computeScore exact lsoa1 [(''A'', stA)]) = Some stA"
    unfolding lsoa1_def by (rule nearestSt_single) (rule distTo_sample)
  have d: "imd_decile lsoa1 = Some 1" by (simp add: lsoa1_def)
  have m: "maxAQI stA = Some 10" by (simp add: stA_def)
  from computeScore_components [where err = exact and l = lsoa1 and sts = "[(''A'', stA)]"
      and st = stA] n d m
  show ?thesis by blast
qed

section \<open>Properties of the centroid\<close>

lemma processRing_sums:
  "processRing ring (sumLat, sumLng, count) =
     (sumLat + sum_list (map snd ring), sumLng + sum_list (map fst ring), count + length ring)"
  by (induction ring arbitrary: sumLat sumLng count) (auto simp: algebra_simps)

lemma processOuter_sums:
  "poly \<noteq> [] \<Longrightarrow> processOuter poly (sumLat, sumLng, count) =
     Inr (sumLat + sum_list (map snd (outerRing poly)),
          sumLng + sum_list (map fst (outerRing poly)), count + length (outerRing poly))"
  by (cases poly) (simp_all add: processOuter_def outerRing_def processRing_sums)

lemma processPolys_sums:
  "list_all (\<lambda>poly. poly \<noteq> []) coords \<Longrightarrow>
   processPolys coords (sumLat, sumLng, count) =
     Inr (sumLat + sum_list (map snd (concat (map outerRing coords))),
          sumLng + sum_list (map fst (concat (map outerRing coords))),
          count + length (concat (map outerRing coords)))"
proof (induction coords arbitrary: sumLat sumLng count)
  case Nil
  then show ?case by simp
next
  case (Cons poly coords)
  then have p: "poly \<noteq> []" and r: "list_all (\<lambda>poly. poly \<noteq> []) coords" by simp_all
  show ?case
    by (simp add: processOuter_sums [OF p] Cons.IH [OF r] algebra_simps)
qed

text \<open>
  On a geometry whose polygons all have their outer ring, the centroid is the mean of
  the vertices of the outer rings, holes ignored, and \<open>null\<close> when these rings hold no
  vertex or the type is neither \<open>Polygon\<close> nor \<open>MultiPolygon\<close>.
\<close>

lemma centroid_vertex_mean:
  assumes "hasOuterRings geometry"
  shows "centroid geometry = Inr (vertexMean (outerVertices geometry))"
proof (cases geometry)
  case (Polygon coords)
  with assms have "coords \<noteq> []" by (simp add: hasOuterRings_def)
  from processOuter_sums [OF this, of 0 0 0] Polygon show ?thesis
    by (simp add: centroid_def outerVertices_def vertexMean_def)
next
  case (MultiPolygon coords)
  with assms have "list_all (\<lambda>poly. poly \<noteq> []) coords" by (simp add: hasOuterRings_def)
  from processPolys_sums [OF this, of 0 0 0] MultiPolygon show ?thesis
    by (simp add: centroid_def outerVertices_def vertexMean_def)
next
  case (OtherGeometry ty)
  then show ?thesis by (simp add: centroid_def outerVertices_def vertexMean_def)
qed

text \<open>
  The square with vertices (0,0), (0,2), (2,2), (2,0) has centroid (1,1); a hole does
  not move it; an empty outer ring and an unsupported type give \<open>null\<close>.
\<close>

lemma centroid_examples:
  "centroid (Polygon [[(0, 0), (0, 2), (2, 2), (2, 0)]]) = Inr (Some (1, 1)) \<and>
   centroid (Polygon [[(0, 0), (0, 2), (2, 2), (2, 0)], [(1, 1), (1, 2), (2, 1)]]) =
     Inr (Some (1, 1)) \<and>
   centroid (Polygon [[]]) = Inr None \<and>
   centroid (MultiPolygon []) = Inr None \<and>
   centroid (OtherGeometry ''Point'') = Inr None"
  using centroid_vertex_mean [of "Polygon [[(0, 0), (0, 2), (2, 2), (2, 0)]]"]
    centroid_vertex_mean
      [of "Polygon [[(0, 0), (0, 2), (2, 2), (2, 0)], [(1, 1), (1, 2), (2, 1)]]"]
    centroid_vertex_mean [of "Polygon [[]]"]
    centroid_vertex_mean [of "MultiPolygon []"]
    centroid_vertex_mean [of "OtherGeometry ''Point''"]
  by (simp add: hasOuterRings_def outerVertices_def outerRing_def vertexMean_def)

text \<open>
  Claim C5 says that the centroid is \<open>null\<close> when the geometry contains zero vertices.
  A polygon whose \<open>coordinates\<close> array is empty, and a multi-polygon one of whose
  polygons is an empty array, contain zero vertices; on them the program reads the
  outer ring \<open>coords[0]\<close>, finds \<open>undefined\<close>, and throws a \<open>TypeError\<close> when it iterates
  over it, instead of reaching its own \<open>count === 0\<close> test that returns \<open>null\<close>.
\<close>

theorem centroid_no_ring_throws:
  "outerVertices (Polygon []) = [] \<and> centroid (Polygon []) = Inl TypeError \<and>
   outerVertices (MultiPolygon [[]]) = [] \<and> centroid (MultiPolygon [[]]) = Inl TypeError"
  by (simp add: centroid_def processOuter_def outerVertices_def outerRing_def)

end
